theory Spec2Isabelle
  imports Main "HOL-Library.Sublist"
begin

section \<open>Python strings\<close>

text \<open>
  A Python \<open>str\<close> is modelled as a \<open>string\<close>: the list of its code points, restricted to
  code points below 256 (one \<open>char\<close> each). The built-in operations the template compiler
  calls are written out below: \<open>str.isspace\<close>, \<open>str.strip()\<close>, \<open>str.split()\<close>,
  \<open>str.split(sep)\<close>, \<open>sep.join\<close>, \<open>repr\<close>, \<open>str.startswith\<close> (the list \<open>prefix\<close>) and
  the slices \<open>s[2:-2]\<close> and \<open>s[3:]\<close>.
\<close>

definition isspace :: "char \<Rightarrow> bool" where
  "isspace c = (c \<in> {CHR 0x09, CHR 0x0A, CHR 0x0B, CHR 0x0C, CHR 0x0D, CHR 0x1C, CHR 0x1D,
                      CHR 0x1E, CHR 0x1F, CHR 0x20, CHR 0x85, CHR 0xA0})"

definition strip :: "string \<Rightarrow> string" where
  "strip s = rev (dropWhile isspace (rev (dropWhile isspace s)))"

text \<open>\<open>s.split()\<close>: the maximal runs of non-whitespace characters, in order. The first
  argument is the word being read, reversed.\<close>

fun split_words :: "string \<Rightarrow> string \<Rightarrow> string list" where
  "split_words w [] = (if w = [] then [] else [rev w])"
| "split_words w (c # s) =
     (if isspace c then (if w = [] then split_words [] s else rev w # split_words [] s)
      else split_words (c # w) s)"

definition split_ws :: "string \<Rightarrow> string list" where
  "split_ws s = split_words [] s"

text \<open>\<open>s.split(sep)\<close> for a one-character separator: never empty, one more piece than
  there are separators.\<close>

fun split_on :: "char \<Rightarrow> string \<Rightarrow> string list" where
  "split_on sep [] = [[]]"
| "split_on sep (c # s) =
     (if c = sep then [] # split_on sep s
      else (c # hd (split_on sep s)) # tl (split_on sep s))"

fun join :: "string \<Rightarrow> string list \<Rightarrow> string" where
  "join sep [] = []"
| "join sep [x] = x"
| "join sep (x # y # ys) = x @ sep @ join sep (y # ys)"

text \<open>\<open>s[2:-2]\<close>: empty when \<open>s\<close> has fewer than four characters.\<close>

definition slice_2_m2 :: "string \<Rightarrow> string" where
  "slice_2_m2 s = take (length s - 4) (drop 2 s)"

text \<open>\<open>repr(s)\<close> of a string, as CPython writes it: single quotes unless the string has a
  single quote and no double quote; the quote and the backslash escaped; tab, newline and
  carriage return as \<open>\t\<close>, \<open>\n\<close>, \<open>\r\<close>; every other non-printable character as
  \<open>\xhh\<close>. Below 256 the non-printable characters are 0x00-0x1F, 0x7F-0xA0 and 0xAD.\<close>

definition hex_digit :: "nat \<Rightarrow> char" where
  "hex_digit n = ''0123456789abcdef'' ! (n mod 16)"

definition printable :: "char \<Rightarrow> bool" where
  "printable c = (let n = (of_char c :: nat) in
     (32 \<le> n \<and> n < 127) \<or> (161 \<le> n \<and> n \<noteq> 173))"

definition repr_char :: "char \<Rightarrow> char \<Rightarrow> string" where
  "repr_char quote c =
     (if c = quote \<or> c = CHR 0x5C then [CHR 0x5C, c]
      else if c = CHR 0x09 then [CHR 0x5C, CHR ''t'']
      else if c = CHR 0x0A then [CHR 0x5C, CHR ''n'']
      else if c = CHR 0x0D then [CHR 0x5C, CHR ''r'']
      else if printable c then [c]
      else [CHR 0x5C, CHR ''x'', hex_digit (of_char c div 16), hex_digit (of_char c)])"

definition repr :: "string \<Rightarrow> string" where
  "repr s =
     (let quote = (if CHR 0x27 \<in> set s \<and> CHR 0x22 \<notin> set s then CHR 0x22 else CHR 0x27)
      in quote # concat (map (repr_char quote) s) @ [quote])"

section \<open>The identifier test\<close>

text \<open>\<open>re.match(r'[_a-zA-Z][_a-zA-Z0-9]*$', name)\<close>. Without \<open>re.MULTILINE\<close> the
  anchor \<open>$\<close> matches at the end of the string and also just before a newline that ends
  the string, so an identifier followed by one final newline passes the test.\<close>

definition name_start :: "char \<Rightarrow> bool" where
  "name_start c = (let n = (of_char c :: nat) in
     n = 95 \<or> (97 \<le> n \<and> n \<le> 122) \<or> (65 \<le> n \<and> n \<le> 90))"

definition name_char :: "char \<Rightarrow> bool" where
  "name_char c = (let n = (of_char c :: nat) in
     n = 95 \<or> (97 \<le> n \<and> n \<le> 122) \<or> (65 \<le> n \<and> n \<le> 90) \<or> (48 \<le> n \<and> n \<le> 57))"

fun name_rest :: "string \<Rightarrow> bool" where
  "name_rest [] = True"
| "name_rest (c # s) = (if name_char c then name_rest s else (c = CHR 0x0A \<and> s = []))"

definition match_name :: "string \<Rightarrow> bool" where
  "match_name name = (case name of [] \<Rightarrow> False | c # s \<Rightarrow> name_start c \<and> name_rest s)"

section \<open>The tokenizer\<close>

text \<open>
  \<open>re.split(r'(?s) ({{ .*? }} | {% .*? %} | {# .*? #})', text)\<close>. The flag \<open>(?s)\<close> is
  DOTALL only; there is no \<open>re.VERBOSE\<close>, so every blank of the pattern is a literal
  blank. A match is therefore one blank followed by the captured group, and the group is
  one of
  \<^item> \<open>{{\<close>, blank, any text (shortest), blank, \<open>}}\<close>, blank;
  \<^item> blank, \<open>{%\<close>, blank, any text (shortest), blank, \<open>%}\<close>, blank;
  \<^item> blank, \<open>{#\<close>, blank, any text (shortest), blank, \<open>#}\<close>.

  \<open>find_close close s\<close> is the lazy \<open>.*?\<close> followed by the literal \<open>close\<close>: the
  shortest prefix of \<open>s\<close> after which \<open>close\<close> stands, and what follows \<open>close\<close>.
\<close>

fun find_close :: "string \<Rightarrow> string \<Rightarrow> (string \<times> string) option" where
  "find_close close [] = None"
| "find_close close (c # s) =
     (if prefix close (c # s) then Some ([], drop (length close) (c # s))
      else (case find_close close s of None \<Rightarrow> None
            | Some (x, rest) \<Rightarrow> Some (c # x, rest)))"

definition match_alt :: "string \<Rightarrow> string \<Rightarrow> string \<Rightarrow> (string \<times> string) option" where
  "match_alt opening close s =
     (if prefix opening s then
        (case find_close close (drop (length opening) s) of None \<Rightarrow> None
         | Some (x, rest) \<Rightarrow> Some (opening @ x @ close, rest))
      else None)"

text \<open>The pattern matched at the start of \<open>s\<close>: the captured group and the text after
  the match. The alternatives are tried in the pattern's order.\<close>

definition match_here :: "string \<Rightarrow> (string \<times> string) option" where
  "match_here s =
     (case s of [] \<Rightarrow> None
      | c # s' \<Rightarrow>
          if c = CHR '' '' then
            (case match_alt ''{{ '' '' }} '' s' of Some r \<Rightarrow> Some r
             | None \<Rightarrow>
                (case match_alt '' {% '' '' %} '' s' of Some r \<Rightarrow> Some r
                 | None \<Rightarrow> match_alt '' {# '' '' #}'' s'))
          else None)"

lemma find_close_shorter:
  "close \<noteq> [] \<Longrightarrow> find_close close s = Some (x, rest) \<Longrightarrow> length rest < length s"
proof (induction s arbitrary: x)
  case Nil
  then show ?case by simp
next
  case (Cons c s)
  show ?case
  proof (cases "prefix close (c # s)")
    case True
    with Cons.prems show ?thesis by (cases close) auto
  next
    case False
    with Cons.prems obtain y where "find_close close s = Some (y, rest)"
      by (auto split: option.splits)
    with Cons.IH [OF Cons.prems(1)] show ?thesis by fastforce
  qed
qed

lemma match_alt_shorter:
  "close \<noteq> [] \<Longrightarrow> match_alt opening close s = Some (g, rest) \<Longrightarrow> length rest \<le> length s"
  by (fastforce simp: match_alt_def split: if_splits option.splits
      dest: find_close_shorter)

lemma match_here_shorter:
  assumes "match_here s = Some (g, rest)"
  shows "length rest < length s"
proof (cases s)
  case Nil
  with assms show ?thesis by (simp add: match_here_def)
next
  case (Cons c s')
  with assms obtain opn cls where "cls \<noteq> []"
    and "match_alt opn cls s' = Some (g, rest)"
    by (auto simp: match_here_def split: if_splits option.splits)
  then have "length rest \<le> length s'" by (rule match_alt_shorter)
  with Cons show ?thesis by simp
qed

text \<open>\<open>re.split\<close> scans left to right; at the leftmost match it ends the current piece,
  adds the captured group and goes on after the match. The first argument is the piece
  being read, reversed. The blank that starts a match belongs to no piece.\<close>

function re_split_from :: "string \<Rightarrow> string \<Rightarrow> string list" where
  "re_split_from piece [] = [rev piece]"
| "re_split_from piece (c # s) =
     (case match_here (c # s) of
        Some (g, rest) \<Rightarrow> rev piece # g # re_split_from [] rest
      | None \<Rightarrow> re_split_from (c # piece) s)"
  by pat_completeness auto
termination
  by (relation "measure (\<lambda>(piece, s). length s)") (auto dest: match_here_shorter)

definition re_split :: "string \<Rightarrow> string list" where
  "re_split text = re_split_from [] text"

section \<open>Errors\<close>

text \<open>
  Every exception the code can raise is a value: \<open>StencilError\<close> with its message (class
  \<open>StencilError\<close>, raised by \<open>_error\<close> only), \<open>IndexError\<close> (an index out of range),
  \<open>AssertionError\<close> (the \<open>assert\<close> of \<open>get_globals\<close>), \<open>AttributeError\<close> and
  \<open>KeyError\<close> (failed look-ups), and \<open>Other\<close> for any other exception of the host. A
  function that can raise returns \<open>exn + 'a\<close>, with \<open>Inl\<close> the exception.
\<close>

datatype exn =
    StencilError string
  | IndexError
  | AssertionError
  | AttributeError
  | KeyError
  | Other string

text \<open>\<open>_error\<close>: \<open>raise StencilError("{}: {!r}".format(msg, where))\<close>.\<close>

definition error :: "string \<Rightarrow> string \<Rightarrow> exn + 'a" where
  "error msg wher = Inl (StencilError (msg @ '': '' @ repr wher))"

section \<open>The code builder\<close>

text \<open>
  \<open>CodeBuilder\<close> (builder.py): the indentation \<open>_indent\<close> (read by the property
  \<open>level\<close>), the list \<open>_code\<close> whose items are strings or sections (builders
  themselves), and \<open>INDENT_STEP\<close>.
\<close>

datatype block = Text string | Section code_builder
  and code_builder = CodeBuilder (level: int) (code_of: "block list") (INDENT_STEP: int)

text \<open>\<open>add_line\<close>: \<open>self._code.extend((' ' * self._indent, line, '\n'))\<close>; a string
  repeated a negative number of times is empty.\<close>

definition add_line :: "string \<Rightarrow> code_builder \<Rightarrow> code_builder" where
  "add_line line cb =
     CodeBuilder (level cb)
       (code_of cb @ [Text (replicate (nat (level cb)) CHR '' ''), Text line, Text [CHR 0x0A]])
       (INDENT_STEP cb)"

definition indent :: "code_builder \<Rightarrow> code_builder" where
  "indent cb = CodeBuilder (level cb + INDENT_STEP cb) (code_of cb) (INDENT_STEP cb)"

definition dedent :: "code_builder \<Rightarrow> code_builder" where
  "dedent cb = CodeBuilder (level cb - INDENT_STEP cb) (code_of cb) (INDENT_STEP cb)"

text \<open>
  \<open>add_section\<close> appends a new builder (at the current indentation, with the default
  step 4) to \<open>_code\<close> and returns it; the caller later adds lines to that same object.
  The model returns the position of the section in \<open>_code\<close> as the handle, and
  \<open>section_add_line\<close> is \<open>add_line\<close> called on the section behind a handle.
\<close>

definition add_section :: "code_builder \<Rightarrow> nat \<times> code_builder" where
  "add_section cb =
     (length (code_of cb),
      CodeBuilder (level cb) (code_of cb @ [Section (CodeBuilder (level cb) [] 4)])
        (INDENT_STEP cb))"

definition section_add_line :: "nat \<Rightarrow> string \<Rightarrow> code_builder \<Rightarrow> code_builder" where
  "section_add_line h line cb =
     (case code_of cb ! h of
        Section sec \<Rightarrow>
          CodeBuilder (level cb) ((code_of cb)[h := Section (add_line line sec)])
            (INDENT_STEP cb)
      | Text t \<Rightarrow> cb)"

text \<open>\<open>__str__\<close>: \<open>"".join(str(block) for block in self._code)\<close>.\<close>

fun str_block :: "block \<Rightarrow> string" and str_builder :: "code_builder \<Rightarrow> string" where
  "str_block (Text s) = s"
| "str_block (Section sec) = str_builder sec"
| "str_builder (CodeBuilder i blocks step) = concat (map str_block blocks)"

definition source :: "code_builder \<Rightarrow> string" where
  "source cb = str_builder cb"

text \<open>
  \<open>get_globals\<close>: the assertion, then \<open>exec\<close> of the source text. Python's \<open>exec\<close> is
  not part of the repository; it is the parameter \<open>py_exec\<close>, which maps a source text to
  the exception it raises or to the global names the text defines.
\<close>

definition get_globals ::
  "(string \<Rightarrow> exn + (string \<rightharpoonup> 'r)) \<Rightarrow> code_builder \<Rightarrow> exn + (string \<rightharpoonup> 'r)" where
  "get_globals py_exec cb =
     (if level cb \<noteq> 0 then Inl AssertionError else py_exec (source cb))"

section \<open>The expression compiler\<close>

text \<open>
  The sets \<open>all_vars\<close> and \<open>loop_vars\<close> of a template are lists without duplicates.
  Python does not specify the order in which a set is iterated; the model keeps the order
  of insertion, and nothing proved below depends on it.

  \<open>_variable\<close>: raise when the name fails the identifier test, otherwise add it.
\<close>

definition variable :: "string \<Rightarrow> string list \<Rightarrow> exn + string list" where
  "variable name vars_set =
     (if \<not> match_name name then error ''invalid variable name'' name
      else Inr (List.insert name vars_set))"

text \<open>The loop \<open>for func in pipes[1:]\<close> of \<open>_expr_code\<close>, on the code compiled so
  far and \<open>all_vars\<close>.\<close>

fun expr_code_pipes :: "string list \<Rightarrow> string \<Rightarrow> string list \<Rightarrow> exn + (string \<times> string list)"
  where
  "expr_code_pipes [] code vs = Inr (code, vs)"
| "expr_code_pipes (func # funcs) code vs =
     (case variable func vs of
        Inl e \<Rightarrow> Inl e
      | Inr vs' \<Rightarrow> expr_code_pipes funcs (''c_'' @ func @ ''('' @ code @ '')'') vs')"

lemma hd_split_on: "hd (split_on sep s) = takeWhile (\<lambda>c. c \<noteq> sep) s"
  by (induction s) simp_all

lemma length_hd_split_on: "sep \<in> set s \<Longrightarrow> length (hd (split_on sep s)) < length s"
  unfolding hd_split_on by (induction s) (auto simp: less_Suc_eq_le length_takeWhile_le)

text \<open>\<open>_expr_code\<close>: the Python expression for \<open>expr\<close>, and \<open>all_vars\<close> after it.\<close>

function expr_code :: "string \<Rightarrow> string list \<Rightarrow> exn + (string \<times> string list)" where
  "expr_code expr vs =
     (if CHR ''|'' \<in> set expr then
        (case expr_code (hd (split_on CHR ''|'' expr)) vs of
           Inl e \<Rightarrow> Inl e
         | Inr (code, vs') \<Rightarrow> expr_code_pipes (tl (split_on CHR ''|'' expr)) code vs')
      else if CHR ''.'' \<in> set expr then
        (case expr_code (hd (split_on CHR ''.'' expr)) vs of
           Inl e \<Rightarrow> Inl e
         | Inr (code, vs') \<Rightarrow>
             Inr (''do_dots('' @ code @ '', ''
                    @ join '', '' (map repr (tl (split_on CHR ''.'' expr))) @ '')'', vs'))
      else
        (case variable expr vs of
           Inl e \<Rightarrow> Inl e
         | Inr vs' \<Rightarrow> Inr (''c_'' @ expr, vs')))"
  by pat_completeness auto
termination
  by (relation "measure (\<lambda>(expr, vs). length expr)") (auto simp: length_hd_split_on)

declare expr_code.simps [simp del]

section \<open>The template compiler\<close>

text \<open>
  What \<open>_compile_template\<close> reads and writes while it runs: the two name sets of the
  template (\<open>self.all_vars\<close>, \<open>self.loop_vars\<close>) and its local variables \<open>code\<close>,
  \<open>vars_code\<close> (the handle of the reserved section), \<open>buffer\<close> and \<open>ops_stack\<close>
  (a Python list used as a stack: pushed and popped at its end).
\<close>

record names =
  all_vars :: "string list"
  loop_vars :: "string list"

record cstate = names +
  code :: code_builder
  vars_code :: nat
  buffer :: "string list"
  ops_stack :: "string list"

text \<open>\<open>flush_output\<close>: one pending fragment becomes an \<open>append\<close> line, several become
  one \<open>extend\<close> line, and the buffer is emptied.\<close>

definition flush_output :: "cstate \<Rightarrow> cstate" where
  "flush_output st =
     (let code' =
        (if length (buffer st) = 1 then
           add_line (''append('' @ buffer st ! 0 @ '')'') (code st)
         else if length (buffer st) > 1 then
           add_line (''extend(['' @ join '', '' (buffer st) @ ''])'') (code st)
         else code st)
      in st\<lparr>code := code', buffer := []\<rparr>)"

text \<open>The branch \<open>words[0] == 'if'\<close> (lines 110-116).\<close>

definition tag_if :: "cstate \<Rightarrow> string \<Rightarrow> string list \<Rightarrow> exn + cstate" where
  "tag_if st token words =
     (if length words \<noteq> 2 then error ''invalid syntax: if'' token
      else
        (let st = st\<lparr>ops_stack := ops_stack st @ [''if'']\<rparr> in
         case expr_code (words ! 1) (all_vars st) of
           Inl e \<Rightarrow> Inl e
         | Inr (expr, vs) \<Rightarrow>
             Inr (st\<lparr>all_vars := vs,
                     code := indent (add_line (''if '' @ expr @ '':'') (code st))\<rparr>)))"

text \<open>
  The branch \<open>words[0] == 'for'\<close> (lines 117-124). In the source the five statements
  that push \<open>for\<close>, register the loop variable, compile the expression, emit the loop
  header and indent stand inside the \<open>if\<close> that tests for invalid syntax, after the call
  of \<open>_error\<close>; they are written here in the same place. The \<open>or\<close> of the test does not
  read \<open>words[2]\<close> when the number of words is not four.
\<close>

definition tag_for :: "cstate \<Rightarrow> string \<Rightarrow> string list \<Rightarrow> exn + cstate" where
  "tag_for st token words =
     (if (if length words \<noteq> 4 then True else words ! 2 \<noteq> ''in'') then
        (case error ''invalid syntax: for'' token of
           Inl e \<Rightarrow> Inl e
         | Inr () \<Rightarrow>
             (let st = st\<lparr>ops_stack := ops_stack st @ [''for'']\<rparr> in
              case variable (words ! 1) (loop_vars st) of
                Inl e \<Rightarrow> Inl e
              | Inr lvs \<Rightarrow>
                  (case expr_code (words ! 3) (all_vars st) of
                     Inl e \<Rightarrow> Inl e
                   | Inr (expr, vs) \<Rightarrow>
                       Inr (st\<lparr>all_vars := vs, loop_vars := lvs,
                               code := indent (add_line
                                 (''for c_'' @ words ! 1 @ '' in '' @ expr @ '':'')
                                 (code st))\<rparr>))))
      else Inr st)"

text \<open>The branch \<open>words[0].startswith('end')\<close> (lines 125-136).\<close>

definition tag_end :: "cstate \<Rightarrow> string \<Rightarrow> string list \<Rightarrow> exn + cstate" where
  "tag_end st token words =
     (if length words \<noteq> 1 then error ''invalid syntax: end'' token
      else
        (let end = drop 3 (words ! 0) in
         if ops_stack st = [] then error ''no opening tag for end'' token
         else
           (let start = last (ops_stack st);
                st = st\<lparr>ops_stack := butlast (ops_stack st)\<rparr>
            in if start \<noteq> end then
                 error (''mismatched end tag, expected end'' @ start) end
               else Inr (st\<lparr>code := dedent (code st)\<rparr>))))"

text \<open>The body of the loop \<open>for token in tokens\<close> (lines 99-141). \<open>words[0]\<close> raises
  IndexError when the tag has no word.\<close>

definition compile_token :: "cstate \<Rightarrow> string \<Rightarrow> exn + cstate" where
  "compile_token st token =
     (if prefix ''{#'' token then Inr st
      else if prefix ''{{'' token then
        (case expr_code (strip (slice_2_m2 token)) (all_vars st) of
           Inl e \<Rightarrow> Inl e
         | Inr (expr, vs) \<Rightarrow>
             Inr (st\<lparr>all_vars := vs, buffer := buffer st @ [''str('' @ expr @ '')'']\<rparr>))
      else if prefix ''{%'' token then
        (let st = flush_output st;
             words = split_ws (strip (slice_2_m2 token))
         in case words of
              [] \<Rightarrow> Inl IndexError
            | w0 # ws \<Rightarrow>
                if w0 = ''if'' then tag_if st token words
                else if w0 = ''for'' then tag_for st token words
                else if prefix ''end'' w0 then tag_end st token words
                else error ''invalid tag'' token)
      else if token \<noteq> [] then Inr (st\<lparr>buffer := buffer st @ [repr token]\<rparr>)
      else Inr st)"

fun compile_tokens :: "cstate \<Rightarrow> string list \<Rightarrow> exn + cstate" where
  "compile_tokens st [] = Inr st"
| "compile_tokens st (token # tokens) =
     (case compile_token st token of
        Inl e \<Rightarrow> Inl e
      | Inr st' \<Rightarrow> compile_tokens st' tokens)"

text \<open>Lines 75-82: the state in which the loop over the tokens starts.\<close>

definition start_state :: "'a names_scheme \<Rightarrow> cstate" where
  "start_state self =
     (let code = CodeBuilder 0 [] 4;
          code = add_line ''def render(ctx, do_dots):'' code;
          code = indent code;
          (section, code) = add_section code;
          code = add_line ''result = []'' code;
          code = add_line ''append = result.append'' code;
          code = add_line ''extend = result.extend'' code;
          code = add_line ''str = str'' code
      in \<lparr>all_vars = all_vars self, loop_vars = loop_vars self,
          code = code, vars_code = section, buffer = [], ops_stack = []\<rparr>)"

text \<open>Lines 143-147: after the loop, one line per name of \<open>all_vars - loop_vars\<close> goes
  into the reserved section (\<open>'c_{0} = context{0!r}'.format(var_name)\<close>), then the
  \<open>return\<close> line and the dedent.\<close>

definition finish :: "cstate \<Rightarrow> cstate" where
  "finish st =
     (let code = fold (\<lambda>var_name.
                    section_add_line (vars_code st)
                      (''c_'' @ var_name @ '' = context'' @ repr var_name))
                  (filter (\<lambda>v. v \<notin> set (loop_vars st)) (all_vars st)) (code st);
          code = add_line (''return '' @ [CHR 0x27, CHR 0x27] @ ''.join(result)'') code;
          code = dedent code
      in st\<lparr>code := code\<rparr>)"

text \<open>\<open>_compile_template\<close> up to its last line: the final state, or the exception
  raised on the way.\<close>

definition compile_body :: "'a names_scheme \<Rightarrow> string \<Rightarrow> exn + cstate" where
  "compile_body self text =
     (case compile_tokens (start_state self) (re_split text) of
        Inl e \<Rightarrow> Inl e
      | Inr st \<Rightarrow> Inr (finish st))"

text \<open>\<open>_compile_template\<close>: its last line is \<open>code.get_globals()['render']\<close>. The
  result is the renderer together with the two name sets as compilation left them.\<close>

definition compile_template ::
  "(string \<Rightarrow> exn + (string \<rightharpoonup> 'r)) \<Rightarrow> 'a names_scheme \<Rightarrow> string \<Rightarrow> exn + ('r \<times> names)" where
  "compile_template py_exec self text =
     (case compile_body self text of
        Inl e \<Rightarrow> Inl e
      | Inr st \<Rightarrow>
          (case get_globals py_exec (code st) of
             Inl e \<Rightarrow> Inl e
           | Inr globals \<Rightarrow>
               (case globals ''render'' of
                  None \<Rightarrow> Inl KeyError
                | Some r \<Rightarrow> Inr (r, \<lparr>all_vars = all_vars st, loop_vars = loop_vars st\<rparr>))))"

section \<open>The template and its rendering\<close>

text \<open>
  \<open>_do_dots\<close> works on the values of the host: the attribute look-up \<open>getattr\<close>, the
  subscript \<open>value[dot]\<close>, the test \<open>callable\<close> and the call with no argument are the
  host's, and are the four fields of a \<open>host\<close>. Only \<open>AttributeError\<close> is caught by
  the \<open>except\<close> clause.
\<close>

record 'v host =
  py_getattr :: "'v \<Rightarrow> string \<Rightarrow> exn + 'v"
  py_getitem :: "'v \<Rightarrow> string \<Rightarrow> exn + 'v"
  py_callable :: "'v \<Rightarrow> bool"
  py_call :: "'v \<Rightarrow> exn + 'v"

fun do_dots :: "'v host \<Rightarrow> 'v \<Rightarrow> string list \<Rightarrow> exn + 'v" where
  "do_dots H value [] = Inr value"
| "do_dots H value (dot # dots) =
     (case (case py_getattr H value dot of
              Inl AttributeError \<Rightarrow> py_getitem H value dot
            | r \<Rightarrow> r) of
        Inl e \<Rightarrow> Inl e
      | Inr v \<Rightarrow>
          if py_callable H v then
            (case py_call H v of Inl e \<Rightarrow> Inl e | Inr v' \<Rightarrow> do_dots H v' dots)
          else do_dots H v dots)"

text \<open>
  Dictionaries are objects that the template and its caller share, so they live in a
  store: \<open>cells\<close> maps an address to the dictionary there, and \<open>next_addr\<close> is the
  address the next new dictionary gets. A reference is an address below \<open>next_addr\<close>.
\<close>

type_synonym 'v pydict = "string \<rightharpoonup> 'v"

record 'v heap =
  cells :: "nat \<rightharpoonup> 'v pydict"
  next_addr :: nat

definition dict_at :: "'v heap \<Rightarrow> nat \<Rightarrow> 'v pydict" where
  "dict_at h a = (case cells h a of None \<Rightarrow> Map.empty | Some d \<Rightarrow> d)"

definition new_dict :: "'v pydict \<Rightarrow> 'v heap \<Rightarrow> nat \<times> 'v heap" where
  "new_dict d h =
     (next_addr h, h\<lparr>cells := (cells h)(next_addr h \<mapsto> d), next_addr := Suc (next_addr h)\<rparr>)"

text \<open>\<open>d.copy()\<close> and \<open>d.update(other)\<close>.\<close>

definition dict_copy :: "nat \<Rightarrow> 'v heap \<Rightarrow> nat \<times> 'v heap" where
  "dict_copy a h = new_dict (dict_at h a) h"

definition dict_update :: "nat \<Rightarrow> nat \<Rightarrow> 'v heap \<Rightarrow> 'v heap" where
  "dict_update a other h = h\<lparr>cells := (cells h)(a \<mapsto> dict_at h a ++ dict_at h other)\<rparr>"

text \<open>
  The compiled renderer is called with the render context and the resolver. The code
  that the compiler emits assigns to names of its own only, so the renderer is a function
  of the content of the context it is given.
\<close>

type_synonym 'v renderer = "'v pydict \<Rightarrow> ('v \<Rightarrow> string list \<Rightarrow> exn + 'v) \<Rightarrow> exn + string"

record 'v template = names +
  "context" :: nat
  renderer :: "'v renderer"

text \<open>\<open>Template.__init__\<close>: the base context is a new dictionary, updated with each of
  \<open>contexts\<close> in turn; then the text is compiled.\<close>

definition init ::
  "(string \<Rightarrow> exn + (string \<rightharpoonup> 'v renderer)) \<Rightarrow> string \<Rightarrow> nat list \<Rightarrow> 'v heap
     \<Rightarrow> (exn + 'v template) \<times> 'v heap" where
  "init py_exec text contexts h =
     (let (c, h) = new_dict Map.empty h;
          h = fold (dict_update c) contexts h
      in case compile_template py_exec \<lparr>all_vars = [], loop_vars = []\<rparr> text of
           Inl e \<Rightarrow> (Inl e, h)
         | Inr (r, ns) \<Rightarrow>
             (Inr \<lparr>all_vars = all_vars ns, loop_vars = loop_vars ns,
                   context = c, renderer = r\<rparr>, h))"

text \<open>\<open>render\<close>: \<open>ctx\<close> is \<open>None\<close> or a reference to the caller's dictionary; an empty
  dictionary is false in \<open>if ctx\<close>.\<close>

definition render ::
  "'v host \<Rightarrow> 'v template \<Rightarrow> nat option \<Rightarrow> 'v heap \<Rightarrow> (exn + string) \<times> 'v heap" where
  "render H self ctx h =
     (let (render_ctx, h) = dict_copy (context self) h;
          h = (case ctx of
                 None \<Rightarrow> h
               | Some a \<Rightarrow> if dict_at h a = Map.empty then h else dict_update render_ctx a h)
      in (renderer self (dict_at h render_ctx) (do_dots H), h))"

section \<open>Names for the statements\<close>

text \<open>The parts of an expression as \<open>_expr_code\<close> splits it: the filters after the
  first \<open>|\<close>, and in what stands before it the top-level name and the dotted members.\<close>

definition top_name :: "string \<Rightarrow> string" where
  "top_name expr = hd (split_on CHR ''.'' (hd (split_on CHR ''|'' expr)))"

definition members :: "string \<Rightarrow> string list" where
  "members expr = tl (split_on CHR ''.'' (hd (split_on CHR ''|'' expr)))"

definition filters :: "string \<Rightarrow> string list" where
  "filters expr = tl (split_on CHR ''|'' expr)"

text \<open>The identifier pattern \<open>[_a-zA-Z][_a-zA-Z0-9]*\<close> as the specification writes
  it, matched against the whole name; and the names whose last character is a newline.\<close>

definition is_identifier :: "string \<Rightarrow> bool" where
  "is_identifier name = (case name of [] \<Rightarrow> False | c # s \<Rightarrow> name_start c \<and> list_all name_char s)"

definition ends_in_newline :: "string \<Rightarrow> bool" where
  "ends_in_newline name = (name \<noteq> [] \<and> last name = CHR 0x0A)"



definition demo_host :: "string host" where
  "demo_host =
     \<lparr>py_getattr = (\<lambda>v n. if v = ''obj'' \<and> n = ''tag'' then Inr ''method''
                          else if v = ''obj'' \<and> n = ''boom'' then Inl (Other ''ValueError'')
                          else Inl AttributeError),
      py_getitem = (\<lambda>v n. if v = ''u'' \<and> n = ''name'' then Inr ''Ann'' else Inl KeyError),
      py_callable = (\<lambda>v. v = ''method''),
      py_call = (\<lambda>v. if v = ''method'' then Inr ''X'' else Inl (Other ''TypeError''))\<rparr>"

definition demo_heap :: "string heap" where
  "demo_heap =
     \<lparr>cells = [0 \<mapsto> [''x'' \<mapsto> ''base''], 1 \<mapsto> [''x'' \<mapsto> ''call'', ''y'' \<mapsto> ''more'']],
      next_addr = 2\<rparr>"

definition demo_template :: "string template" where
  "demo_template =
     \<lparr>all_vars = [''x''], loop_vars = [], context = 0,
      renderer = (\<lambda>ctx resolve. case ctx ''x'' of None \<Rightarrow> Inl KeyError | Some v \<Rightarrow> Inr v)\<rparr>"

section \<open>Evaluation rules and basic facts\<close>

abbreviation nl :: string where
  "nl \<equiv> [CHR 0x0A]"

abbreviation no_names :: names where
  "no_names \<equiv> \<lparr>all_vars = [], loop_vars = []\<rparr>"

lemmas str_defs = strip_def split_ws_def slice_2_m2_def isspace_def repr_def repr_char_def
  printable_def match_name_def name_start_def name_char_def

lemmas tok_defs = re_split_def match_here_def match_alt_def

lemmas cb_defs = Let_def eval_nat_numeral add_line_def indent_def dedent_def add_section_def
  section_add_line_def source_def

lemmas comp_defs = compile_body_def start_state_def finish_def compile_token_def
  flush_output_def tag_if_def tag_for_def tag_end_def error_def variable_def expr_code.simps

lemma tag_token_not_other:
  "prefix ''{%'' token \<Longrightarrow> \<not> prefix ''{#'' token \<and> \<not> prefix ''{{'' token"
  by (auto simp: prefix_def)

lemma compile_token_tag:
  "prefix ''{%'' token \<Longrightarrow> split_ws (strip (slice_2_m2 token)) = w0 # ws \<Longrightarrow>
   compile_token st token =
     (if w0 = ''if'' then tag_if (flush_output st) token (w0 # ws)
      else if w0 = ''for'' then tag_for (flush_output st) token (w0 # ws)
      else if prefix ''end'' w0 then tag_end (flush_output st) token (w0 # ws)
      else error ''invalid tag'' token)"
  using tag_token_not_other [of token] by (simp add: compile_token_def Let_def)

lemma flush_output_frame:
  "ops_stack (flush_output st) = ops_stack st"
  "all_vars (flush_output st) = all_vars st"
  "loop_vars (flush_output st) = loop_vars st"
  "vars_code (flush_output st) = vars_code st"
  "level (code (flush_output st)) = level (code st)"
  "INDENT_STEP (code (flush_output st)) = INDENT_STEP (code st)"
  by (simp_all add: flush_output_def Let_def add_line_def)

subsection \<open>Splitting and joining\<close>

lemma split_on_no_sep: "sep \<notin> set s \<Longrightarrow> split_on sep s = [s]"
  by (induction s) auto

lemma split_on_sep_free_prefix:
  "sep \<notin> set a \<Longrightarrow> split_on sep (a @ sep # s) = a # split_on sep s"
  by (induction a) auto

lemma split_on_not_Nil: "split_on sep s \<noteq> []"
  by (induction s) auto

lemma tl_split_on_Nil: "tl (split_on sep s) = [] \<longleftrightarrow> sep \<notin> set s"
proof (induction s)
  case Nil
  show ?case by simp
next
  case (Cons c s)
  then show ?case using split_on_not_Nil [of sep s] by auto
qed

lemma hd_split_on_sep_free: "sep \<notin> set (hd (split_on sep s))"
  unfolding hd_split_on by (induction s) auto

lemma hd_split_on_subset: "set (hd (split_on sep s)) \<subseteq> set s"
  unfolding hd_split_on by (auto dest: set_takeWhileD)

lemma split_on_join:
  "list_all (\<lambda>x. sep \<notin> set x) (x # xs) \<Longrightarrow> split_on sep (join [sep] (x # xs)) = x # xs"
proof (induction xs arbitrary: x)
  case Nil
  then show ?case by (simp add: split_on_no_sep)
next
  case (Cons y ys)
  then show ?case by (simp add: split_on_sep_free_prefix)
qed

lemma sep_in_join: "xs \<noteq> [] \<Longrightarrow> sep \<in> set (join [sep] (x # xs))"
  by (cases xs) auto

lemma name_rest_chars: "name_rest s \<Longrightarrow> c \<in> set s \<Longrightarrow> name_char c \<or> c = CHR 0x0A"
  by (induction s) (auto split: if_splits)

lemma match_name_chars:
  assumes "match_name name" and "c \<in> set name"
  shows "name_char c \<or> c = CHR 0x0A"
proof -
  from assms(1) obtain a s where n: "name = a # s" and a: "name_start a" and s: "name_rest s"
    by (auto simp: match_name_def split: list.splits)
  from a have "name_char a" by (auto simp: name_start_def name_char_def Let_def)
  with n s assms(2) show ?thesis by (auto dest: name_rest_chars)
qed

lemma match_name_no_sep:
  assumes "match_name name"
  shows "CHR ''|'' \<notin> set name" and "CHR ''.'' \<notin> set name"
proof -
  have "\<not> (name_char CHR ''|'' \<or> CHR ''|'' = CHR 0x0A)" 
    and "\<not> (name_char CHR ''.'' \<or> CHR ''.'' = CHR 0x0A)"
    by (simp_all add: name_char_def)
  with assms show "CHR ''|'' \<notin> set name" and "CHR ''.'' \<notin> set name"
    by (blast dest: match_name_chars)+
qed

subsection \<open>Identifiers and the identifier test\<close>

lemma name_rest_all: "list_all name_char s \<Longrightarrow> name_rest s"
  by (induction s) simp_all

lemma identifier_match_name: "is_identifier name \<Longrightarrow> match_name name"
  by (auto simp: is_identifier_def match_name_def name_rest_all split: list.splits)

lemma name_rest_cases: "name_rest s \<Longrightarrow> list_all name_char s \<or> ends_in_newline s"
  by (induction s) (auto simp: ends_in_newline_def split: if_splits)

lemma match_name_identifier:
  assumes "match_name name" and "\<not> ends_in_newline name"
  shows "is_identifier name"
proof -
  from assms(1) obtain c s where n: "name = c # s" and c: "name_start c" and s: "name_rest s"
    by (auto simp: match_name_def split: list.splits)
  from s have "list_all name_char s \<or> ends_in_newline s" by (rule name_rest_cases)
  moreover from assms(2) n have "\<not> ends_in_newline s" by (auto simp: ends_in_newline_def)
  ultimately show ?thesis using n c by (simp add: is_identifier_def)
qed

lemma list_all_identifier_match_name: "list_all is_identifier fs \<Longrightarrow> list_all match_name fs"
  by (induction fs) (simp_all add: identifier_match_name)

subsection \<open>The expression compiler, case by case\<close>

lemma expr_code_name:
  "CHR ''|'' \<notin> set e \<Longrightarrow> CHR ''.'' \<notin> set e \<Longrightarrow>
   expr_code e vs =
     (if match_name e then Inr (''c_'' @ e, List.insert e vs)
      else Inl (StencilError (''invalid variable name: '' @ repr e)))"
  by (subst expr_code.simps) (simp add: variable_def error_def)

lemma expr_code_base:
  assumes "CHR ''|'' \<notin> set b"
  shows "expr_code b vs =
     (if \<not> match_name (hd (split_on CHR ''.'' b)) then
        Inl (StencilError (''invalid variable name: '' @ repr (hd (split_on CHR ''.'' b))))
      else if CHR ''.'' \<in> set b then
        Inr (''do_dots(c_'' @ hd (split_on CHR ''.'' b) @ '', ''
               @ join '', '' (map repr (tl (split_on CHR ''.'' b))) @ '')'',
             List.insert (hd (split_on CHR ''.'' b)) vs)
      else Inr (''c_'' @ b, List.insert b vs))"
proof (cases "CHR ''.'' \<in> set b")
  case True
  let ?n = "hd (split_on CHR ''.'' b)"
  have "CHR ''.'' \<notin> set ?n" by (rule hd_split_on_sep_free)
  moreover have "CHR ''|'' \<notin> set ?n" using assms hd_split_on_subset [of "CHR ''.''" b] by blast
  ultimately have "expr_code ?n vs =
     (if match_name ?n then Inr (''c_'' @ ?n, List.insert ?n vs)
      else Inl (StencilError (''invalid variable name: '' @ repr ?n)))"
    by (simp add: expr_code_name)
  with assms True show ?thesis
    by (subst expr_code.simps) simp
next
  case False
  with assms show ?thesis by (simp add: expr_code_name split_on_no_sep)
qed

lemma expr_code_pipes_valid:
  "list_all match_name fs \<Longrightarrow>
   expr_code_pipes fs c0 vs =
     Inr (foldl (\<lambda>c f. ''c_'' @ f @ ''('' @ c @ '')'') c0 fs, fold List.insert fs vs)"
  by (induction fs arbitrary: c0 vs) (simp_all add: variable_def)

lemma expr_code_pipes_invalid:
  "list_all match_name fs1 \<Longrightarrow> \<not> match_name f \<Longrightarrow>
   expr_code_pipes (fs1 @ f # fs2) c0 vs
     = Inl (StencilError (''invalid variable name: '' @ repr f))"
  by (induction fs1 arbitrary: c0 vs) (simp_all add: variable_def error_def)

lemma set_fold_insert: "set (fold List.insert fs vs) = set vs \<union> set fs"
  by (induction fs arbitrary: vs) auto

lemma expr_code_piped:
  "CHR ''|'' \<in> set expr \<Longrightarrow>
   expr_code expr vs =
     (case expr_code (hd (split_on CHR ''|'' expr)) vs of
        Inl e \<Rightarrow> Inl e
      | Inr (c0, vs') \<Rightarrow> expr_code_pipes (tl (split_on CHR ''|'' expr)) c0 vs')"
  by (subst expr_code.simps) simp

subsection \<open>Indentation and the ops stack\<close>











lemma finish_ops_stack: "ops_stack (finish st) = ops_stack st"
  by (simp add: finish_def Let_def)




subsection \<open>The resolver on a concatenation\<close>

lemma do_dots_append:
  "do_dots H v (ns @ ms) = (case do_dots H v ns of Inl e \<Rightarrow> Inl e | Inr w \<Rightarrow> do_dots H w ms)"
proof (induction ns arbitrary: v)
  case Nil
  show ?case by simp
next
  case (Cons n ns)
  show ?case
    by (simp add: Cons.IH split: sum.splits exn.splits)
qed

subsection \<open>Tokens that are not tags emit no code\<close>

lemma compile_token_no_tag:
  "\<not> prefix ''{%'' token \<Longrightarrow> compile_token st token = Inr st' \<Longrightarrow> code st' = code st"
  by (auto simp: compile_token_def split: if_splits sum.splits)

lemma compile_tokens_no_tag:
  "list_all (\<lambda>t. \<not> prefix ''{%'' t) tokens \<Longrightarrow> compile_tokens st tokens = Inr st' \<Longrightarrow>
   code st' = code st"
proof (induction tokens arbitrary: st)
  case Nil
  then show ?case by simp
next
  case (Cons token tokens)
  from Cons.prems(2) obtain st1 where s1: "compile_token st token = Inr st1"
    and rest: "compile_tokens st1 tokens = Inr st'"
    by (auto split: sum.splits)
  from Cons.prems(1) have "\<not> prefix ''{%'' token" by simp
  then have "code st1 = code st" using s1 by (rule compile_token_no_tag)
  moreover from Cons.prems(1) have "list_all (\<lambda>t. \<not> prefix ''{%'' t) tokens" by simp
  then have "code st' = code st1" using rest by (rule Cons.IH)
  ultimately show ?case by simp
qed

section \<open>The \<open>for\<close> tag\<close>

text \<open>
  C1. The code does not do what the claim says. For every tag token whose content splits
  into exactly the four words \<open>for\<close>, a variable name, \<open>in\<close> and an expression, the
  compiler only flushes the output buffer: nothing is pushed onto the ops stack, no loop
  variable is registered, no expression is compiled, no loop header is emitted and the
  indent stays as it is. The statements that would do so stand after the call of
  \<open>_error\<close> inside the test for invalid syntax. The template of the claim,
  \<open>{% for n in items %}{{ n }},{% endfor %}\<close>, does not compile at all: the tokenizer
  leaves it in one piece, the piece is read as one tag of eight words, and \<open>_error\<close>
  raises "invalid syntax: for".
\<close>

theorem for_tag_has_no_effect:
  "(prefix ''{%'' token \<and> split_ws (strip (slice_2_m2 token)) = [''for'', var, ''in'', e]
      \<longrightarrow> compile_token st token = Inr (flush_output st)
          \<and> ops_stack (flush_output st) = ops_stack st
          \<and> loop_vars (flush_output st) = loop_vars st
          \<and> all_vars (flush_output st) = all_vars st
          \<and> level (code (flush_output st)) = level (code st))
   \<and> compile_body no_names ''{% for n in items %}{{ n }},{% endfor %}''
       = Inl (StencilError (''invalid syntax: for: '' @ [CHR 0x27]
               @ ''{% for n in items %}{{ n }},{% endfor %}'' @ [CHR 0x27]))"
proof (intro conjI impI)
  assume "prefix ''{%'' token \<and> split_ws (strip (slice_2_m2 token)) = [''for'', var, ''in'', e]"
  then show "compile_token st token = Inr (flush_output st)"
    by (simp add: compile_token_tag tag_for_def)
next
  show "compile_body no_names ''{% for n in items %}{{ n }},{% endfor %}''
       = Inl (StencilError (''invalid syntax: for: '' @ [CHR 0x27]
               @ ''{% for n in items %}{{ n }},{% endfor %}'' @ [CHR 0x27]))"
    by (simp add: str_defs tok_defs cb_defs comp_defs)
qed (simp_all add: flush_output_frame)

theorem for_tag_has_no_effect_witness:
  "prefix ''{%'' ''{% for n in items %}''
   \<and> split_ws (strip (slice_2_m2 ''{% for n in items %}'')) = [''for'', ''n'', ''in'', ''items'']
   \<and> compile_token (start_state no_names) ''{% for n in items %}''
       = Inr (flush_output (start_state no_names))
   \<and> ops_stack (flush_output (start_state no_names)) = []
   \<and> loop_vars (flush_output (start_state no_names)) = []"
  using for_tag_has_no_effect [of "''{% for n in items %}''" "''n''" "''items''"
      "start_state no_names"]
  by (simp add: str_defs start_state_def flush_output_def cb_defs)

section \<open>The prologue\<close>

text \<open>
  C2. The code does not do what the claim says. The line written into the reserved
  section for a variable \<open>x\<close> is \<open>c_x = context'x'\<close>: the name \<open>context\<close> followed by
  a string literal, with no subscript, where the parameter of the emitted function is
  called \<open>ctx\<close>. For the template \<open>{{ x }}\<close> the whole text handed to \<open>exec\<close> is the
  one below; it also has no output statement, because the buffered fragment
  \<open>str(c_x)\<close> is still in the buffer when compilation ends.
\<close>

theorem prologue_line_for_x:
  "\<exists>st. compile_body no_names ''{{ x }}'' = Inr st
     \<and> all_vars st = [''x''] \<and> loop_vars st = [] \<and> buffer st = [''str(c_x)'']
     \<and> level (code st) = 0
     \<and> source (code st) =
         ''def render(ctx, do_dots):'' @ nl @
         ''    c_x = context'x'' @ [CHR 0x27] @ nl @
         ''    result = []'' @ nl @
         ''    append = result.append'' @ nl @
         ''    extend = result.extend'' @ nl @
         ''    str = str'' @ nl @
         ''    return '' @ [CHR 0x27, CHR 0x27] @ ''.join(result)'' @ nl"
  by (simp add: str_defs tok_defs cb_defs comp_defs)

section \<open>The output buffer at the end of compilation\<close>

text \<open>
  C3. The code does not do what the claim says. \<open>flush_output\<close> is called when a tag is
  met and nowhere else; after the last token the buffer is not flushed. Tokens that are
  not tags leave the emitted code as it is, so whatever they put into the buffer after the
  last tag is never emitted. For the template \<open>hello\<close> the fragment \<open>'hello'\<close> is still
  in the buffer when compilation ends, and the emitted function has no \<open>append\<close> or
  \<open>extend\<close> statement: nothing of the template reaches its result.
\<close>

theorem no_flush_after_last_token:
  "(list_all (\<lambda>t. \<not> prefix ''{%'' t) tokens \<and> compile_tokens st tokens = Inr st' \<longrightarrow>
      code st' = code st)
   \<and> (\<exists>st. compile_body no_names ''hello'' = Inr st
          \<and> buffer st = [[CHR 0x27] @ ''hello'' @ [CHR 0x27]]
          \<and> source (code st) =
              ''def render(ctx, do_dots):'' @ nl @
              ''    result = []'' @ nl @
              ''    append = result.append'' @ nl @
              ''    extend = result.extend'' @ nl @
              ''    str = str'' @ nl @
              ''    return '' @ [CHR 0x27, CHR 0x27] @ ''.join(result)'' @ nl)"
proof (intro conjI impI)
  assume "list_all (\<lambda>t. \<not> prefix ''{%'' t) tokens \<and> compile_tokens st tokens = Inr st'"
  then show "code st' = code st" by (blast intro: compile_tokens_no_tag)
next
  show "\<exists>st. compile_body no_names ''hello'' = Inr st
          \<and> buffer st = [[CHR 0x27] @ ''hello'' @ [CHR 0x27]]
          \<and> source (code st) =
              ''def render(ctx, do_dots):'' @ nl @
              ''    result = []'' @ nl @
              ''    append = result.append'' @ nl @
              ''    extend = result.extend'' @ nl @
              ''    str = str'' @ nl @
              ''    return '' @ [CHR 0x27, CHR 0x27] @ ''.join(result)'' @ nl"
    by (simp add: str_defs tok_defs cb_defs comp_defs)
qed

theorem no_flush_after_last_token_witness:
  "list_all (\<lambda>t. \<not> prefix ''{%'' t) [''Hello, '', ''world'']
   \<and> compile_tokens (start_state no_names) [''Hello, '', ''world'']
        = Inr ((start_state no_names)
                 \<lparr>buffer := [[CHR 0x27] @ ''Hello, '' @ [CHR 0x27],
                              [CHR 0x27] @ ''world'' @ [CHR 0x27]]\<rparr>)
   \<and> code ((start_state no_names)
                 \<lparr>buffer := [[CHR 0x27] @ ''Hello, '' @ [CHR 0x27],
                              [CHR 0x27] @ ''world'' @ [CHR 0x27]]\<rparr>)
        = code (start_state no_names)"
proof -
  have h: "list_all (\<lambda>t. \<not> prefix ''{%'' t) [''Hello, '', ''world'']
      \<and> compile_tokens (start_state no_names) [''Hello, '', ''world'']
        = Inr ((start_state no_names)
                 \<lparr>buffer := [[CHR 0x27] @ ''Hello, '' @ [CHR 0x27],
                              [CHR 0x27] @ ''world'' @ [CHR 0x27]]\<rparr>)"
    by (simp add: start_state_def str_defs cb_defs compile_token_def)
  from no_flush_after_last_token [THEN conjunct1, THEN mp, OF h] h show ?thesis by simp
qed

section \<open>The tokenizer on comments\<close>

text \<open>
  C4. The code does not do what the claim says. The pattern is written with blanks around
  its parts but compiled without \<open>re.VERBOSE\<close>, so the blanks must be in the text: a
  delimiter is found only after two blanks. \<open>a{# c #}b\<close> is one token, a literal; the
  comment is not split off, and the fragment stays in the buffer. In \<open>a  {# c #}b\<close> the
  comment is found, but the token is \<open> {# c #}\<close> with a blank in front, which does not
  start with \<open>{#\<close> and is buffered as literal text, and the first blank is in no token.
\<close>

theorem comment_is_not_split_off:
  "re_split ''a{# c #}b'' = [''a{# c #}b'']
   \<and> (\<exists>st. compile_body no_names ''a{# c #}b'' = Inr st
          \<and> buffer st = [[CHR 0x27] @ ''a{# c #}b'' @ [CHR 0x27]]
          \<and> source (code st) =
              ''def render(ctx, do_dots):'' @ nl @
              ''    result = []'' @ nl @
              ''    append = result.append'' @ nl @
              ''    extend = result.extend'' @ nl @
              ''    str = str'' @ nl @
              ''    return '' @ [CHR 0x27, CHR 0x27] @ ''.join(result)'' @ nl)
   \<and> re_split ''a  {# c #}b'' = [''a'', '' {# c #}'', ''b'']
   \<and> (\<exists>st. compile_body no_names ''a  {# c #}b'' = Inr st
          \<and> buffer st = [[CHR 0x27] @ ''a'' @ [CHR 0x27],
                          [CHR 0x27] @ '' {# c #}'' @ [CHR 0x27],
                          [CHR 0x27] @ ''b'' @ [CHR 0x27]])"
  by (simp add: str_defs tok_defs cb_defs comp_defs)

section \<open>The exceptions of construction\<close>

text \<open>
  C5. The code does not do what the claim says. Construction raises exceptions that are
  not \<open>StencilError\<close>: a tag with no word, as in \<open>{% %}\<close>, raises IndexError at
  \<open>words[0]\<close>, and a block that is never closed, as in \<open>{% if x %}\<close>, raises
  AssertionError in \<open>get_globals\<close>; both whatever \<open>exec\<close> would do.
\<close>

theorem construction_raises_other_errors:
  "fst (init py_exec ''{% %}'' [] h) = Inl IndexError
   \<and> fst (init py_exec ''{% if x %}'' [] h) = Inl AssertionError"
  by (simp add: init_def compile_template_def get_globals_def new_dict_def
      str_defs tok_defs cb_defs comp_defs split: prod.splits)

section \<open>The ops stack\<close>



section \<open>Invalid names\<close>

text \<open>
  The claim C7 as it is written fails on dotted members: they are not tested against the
  identifier pattern. \<open>1bad\<close> is not an identifier, and yet the expression \<open>a.1bad\<close>
  compiles, to a call of the resolver with the member as a quoted string, and for the
  template \<open>{{ a.1bad }}\<close> the compiler goes through all its tokens and writes the
  prologue without raising: no error that names the member is raised.
\<close>

theorem member_names_are_not_checked:
  "\<not> is_identifier ''1bad''
   \<and> expr_code ''a.1bad'' [] = Inr (''do_dots(c_a, '1bad')'', [''a''])
   \<and> (\<exists>st. compile_body no_names ''{{ a.1bad }}'' = Inr st \<and> all_vars st = [''a''])"
  by (simp add: is_identifier_def str_defs tok_defs cb_defs comp_defs)

text \<open>
  C7, amended. For every expression: when the top-level name is not an identifier,
  compilation raises "invalid variable name" with that name; when the top-level name is
  an identifier and a filter name is not, it raises "invalid variable name" with the first
  such filter; and when the top-level name and all filter names are identifiers, the
  expression compiles, whatever its dotted members are: they are passed to the resolver
  as quoted strings. Nothing is said of a name that ends in a newline. Construction from
  \<open>{{ 1bad }}\<close> raises "invalid variable name: '1bad'".
\<close>

theorem invalid_names_raise:
  "(\<not> is_identifier (top_name expr) \<and> \<not> ends_in_newline (top_name expr) \<longrightarrow>
      expr_code expr vs
        = Inl (StencilError (''invalid variable name: '' @ repr (top_name expr))))
   \<and> (is_identifier (top_name expr) \<and> filters expr = fs1 @ f # fs2
        \<and> list_all is_identifier fs1 \<and> \<not> is_identifier f \<and> \<not> ends_in_newline f \<longrightarrow>
      expr_code expr vs = Inl (StencilError (''invalid variable name: '' @ repr f)))
   \<and> (is_identifier (top_name expr) \<and> list_all is_identifier (filters expr) \<longrightarrow>
      expr_code expr vs
        = Inr (foldl (\<lambda>c f. ''c_'' @ f @ ''('' @ c @ '')'')
                 (if members expr = [] then ''c_'' @ top_name expr
                  else ''do_dots(c_'' @ top_name expr @ '', ''
                         @ join '', '' (map repr (members expr)) @ '')'')
                 (filters expr),
               fold List.insert (filters expr) (List.insert (top_name expr) vs)))
   \<and> fst (init py_exec ''{{ 1bad }}'' [] h)
        = Inl (StencilError (''invalid variable name: '1bad'' @ [CHR 0x27]))"
proof -
  let ?b = "hd (split_on CHR ''|'' expr)"
  have b: "CHR ''|'' \<notin> set ?b" by (rule hd_split_on_sep_free)
  have dot: "CHR ''.'' \<in> set ?b \<longleftrightarrow> members expr \<noteq> []"
    by (simp add: members_def tl_split_on_Nil)
  have base: "expr_code ?b vs =
     (if \<not> match_name (top_name expr) then
        Inl (StencilError (''invalid variable name: '' @ repr (top_name expr)))
      else Inr (if members expr = [] then ''c_'' @ top_name expr
                else ''do_dots(c_'' @ top_name expr @ '', ''
                       @ join '', '' (map repr (members expr)) @ '')'',
                List.insert (top_name expr) vs))"
  proof (cases "CHR ''.'' \<in> set ?b")
    case True
    with dot have "members expr \<noteq> []" by simp
    with True show ?thesis
      using expr_code_base [OF b, of vs] by (simp add: top_name_def members_def)
  next
    case False
    with dot have m: "members expr = []" by simp
    from False m show ?thesis
      using expr_code_base [OF b, of vs] by (simp add: top_name_def split_on_no_sep)
  qed
  have whole: "expr_code expr vs =
     (case expr_code ?b vs of Inl e \<Rightarrow> Inl e
      | Inr (c0, vs') \<Rightarrow> expr_code_pipes (filters expr) c0 vs')"
  proof (cases "CHR ''|'' \<in> set expr")
    case True
    then show ?thesis unfolding filters_def by (rule expr_code_piped)
  next
    case False
    then have "filters expr = []" "?b = expr"
      by (simp_all add: filters_def split_on_no_sep)
    then show ?thesis by (simp split: sum.splits)
  qed
  have 1: "\<not> is_identifier (top_name expr) \<and> \<not> ends_in_newline (top_name expr) \<longrightarrow>
      expr_code expr vs
        = Inl (StencilError (''invalid variable name: '' @ repr (top_name expr)))"
  proof
    assume "\<not> is_identifier (top_name expr) \<and> \<not> ends_in_newline (top_name expr)"
    then have "\<not> match_name (top_name expr)" by (blast dest: match_name_identifier)
    with base whole show "expr_code expr vs
        = Inl (StencilError (''invalid variable name: '' @ repr (top_name expr)))" by simp
  qed
  have 2: "is_identifier (top_name expr) \<and> filters expr = fs1 @ f # fs2
        \<and> list_all is_identifier fs1 \<and> \<not> is_identifier f \<and> \<not> ends_in_newline f \<longrightarrow>
      expr_code expr vs = Inl (StencilError (''invalid variable name: '' @ repr f))"
  proof
    assume a: "is_identifier (top_name expr) \<and> filters expr = fs1 @ f # fs2
        \<and> list_all is_identifier fs1 \<and> \<not> is_identifier f \<and> \<not> ends_in_newline f"
    then have "match_name (top_name expr)" "list_all match_name fs1" "\<not> match_name f"
      by (auto dest: identifier_match_name list_all_identifier_match_name match_name_identifier)
    with a base whole show "expr_code expr vs = Inl (StencilError (''invalid variable name: '' @ repr f))"
      by (simp add: expr_code_pipes_invalid)
  qed
  have 3: "is_identifier (top_name expr) \<and> list_all is_identifier (filters expr) \<longrightarrow>
      expr_code expr vs
        = Inr (foldl (\<lambda>c f. ''c_'' @ f @ ''('' @ c @ '')'')
                 (if members expr = [] then ''c_'' @ top_name expr
                  else ''do_dots(c_'' @ top_name expr @ '', ''
                         @ join '', '' (map repr (members expr)) @ '')'')
                 (filters expr),
               fold List.insert (filters expr) (List.insert (top_name expr) vs))"
  proof
    assume a: "is_identifier (top_name expr) \<and> list_all is_identifier (filters expr)"
    then have "match_name (top_name expr)" "list_all match_name (filters expr)"
      by (auto dest: identifier_match_name list_all_identifier_match_name)
    with base whole show "expr_code expr vs
        = Inr (foldl (\<lambda>c f. ''c_'' @ f @ ''('' @ c @ '')'')
                 (if members expr = [] then ''c_'' @ top_name expr
                  else ''do_dots(c_'' @ top_name expr @ '', ''
                         @ join '', '' (map repr (members expr)) @ '')'')
                 (filters expr),
               fold List.insert (filters expr) (List.insert (top_name expr) vs))"
      by (simp add: expr_code_pipes_valid)
  qed
  have 4: "fst (init py_exec ''{{ 1bad }}'' [] h)
        = Inl (StencilError (''invalid variable name: '1bad'' @ [CHR 0x27]))"
    by (simp add: init_def compile_template_def new_dict_def
        str_defs tok_defs cb_defs comp_defs split: prod.splits)
  from 1 2 3 4 show ?thesis by blast
qed

theorem invalid_names_raise_witness:
  "\<not> is_identifier (top_name ''9x.y'') \<and> \<not> ends_in_newline (top_name ''9x.y'')
   \<and> expr_code ''9x.y'' [] = Inl (StencilError (''invalid variable name: '9x'' @ [CHR 0x27]))
   \<and> is_identifier (top_name ''a.b|ok|2bad|late'')
   \<and> filters ''a.b|ok|2bad|late'' = [''ok''] @ ''2bad'' # [''late'']
   \<and> \<not> is_identifier ''2bad'' \<and> \<not> ends_in_newline ''2bad''
   \<and> expr_code ''a.b|ok|2bad|late'' []
        = Inl (StencilError (''invalid variable name: '2bad'' @ [CHR 0x27]))
   \<and> is_identifier (top_name ''a.1bad|ok'') \<and> list_all is_identifier (filters ''a.1bad|ok'')
   \<and> members ''a.1bad|ok'' = [''1bad'']
   \<and> expr_code ''a.1bad|ok'' [] = Inr (''c_ok(do_dots(c_a, '1bad'))'', [''ok'', ''a''])"
proof -
  have h1: "\<not> is_identifier (top_name ''9x.y'') \<and> \<not> ends_in_newline (top_name ''9x.y'')"
    by (simp add: top_name_def is_identifier_def ends_in_newline_def str_defs)
  have h2: "is_identifier (top_name ''a.b|ok|2bad|late'')
      \<and> filters ''a.b|ok|2bad|late'' = [''ok''] @ ''2bad'' # [''late'']
      \<and> list_all is_identifier [''ok''] \<and> \<not> is_identifier ''2bad'' \<and> \<not> ends_in_newline ''2bad''"
    by (simp add: top_name_def filters_def is_identifier_def ends_in_newline_def str_defs)
  have h3: "is_identifier (top_name ''a.1bad|ok'') \<and> list_all is_identifier (filters ''a.1bad|ok'')"
    by (simp add: top_name_def filters_def is_identifier_def str_defs)
  have m: "members ''a.1bad|ok'' = [''1bad'']" "top_name ''a.1bad|ok'' = ''a''"
    "filters ''a.1bad|ok'' = [''ok'']"
    by (simp_all add: members_def top_name_def filters_def)
  have c1: "expr_code ''9x.y'' [] = Inl (StencilError (''invalid variable name: '9x'' @ [CHR 0x27]))"
    using invalid_names_raise [of "''9x.y''" "[]", THEN conjunct1, THEN mp, OF h1]
    by (simp add: top_name_def str_defs Let_def)
  have c2: "expr_code ''a.b|ok|2bad|late'' []
        = Inl (StencilError (''invalid variable name: '2bad'' @ [CHR 0x27]))"
    using invalid_names_raise [of "''a.b|ok|2bad|late''" "[]" "[''ok'']" "''2bad''" "[''late'']",
        THEN conjunct2, THEN conjunct1, THEN mp, OF h2]
    by (simp add: str_defs Let_def)
  have c3: "expr_code ''a.1bad|ok'' [] = Inr (''c_ok(do_dots(c_a, '1bad'))'', [''ok'', ''a''])"
    using invalid_names_raise [of "''a.1bad|ok''" "[]",
        THEN conjunct2, THEN conjunct2, THEN conjunct1, THEN mp, OF h3]
    unfolding m by (simp add: repr_def repr_char_def printable_def Let_def)
  from h1 h2 h3 m(1) c1 c2 c3 show ?thesis by blast
qed

section \<open>Filters and dotted access\<close>

text \<open>
  C8. The filters are split off first: an expression made of a base without \<open>|\<close> and
  filter names \<open>f1 ... fn\<close> joined by \<open>|\<close> compiles to the calls
  \<open>c_fn(...c_f1(code)...)\<close> around the code of the whole base, applied from left to
  right, and every filter name is added to the variable set as any other name is. A
  base \<open>name.m1...mk\<close> compiles to \<open>do_dots(c_name, 'm1', ..., 'mk')\<close>, so \<open>a.b|f\<close>
  is \<open>c_f(do_dots(c_a, 'b'))\<close> and \<open>base|f1|f2\<close> is \<open>c_f2(c_f1(c_base))\<close>.
\<close>

theorem filters_wrap_the_dotted_base:
  "(CHR ''|'' \<notin> set base \<and> fs \<noteq> [] \<and> list_all match_name fs
      \<and> expr_code base vs = Inr (c0, vs') \<longrightarrow>
      (\<exists>vs''. expr_code (join ''|'' (base # fs)) vs
                 = Inr (foldl (\<lambda>c f. ''c_'' @ f @ ''('' @ c @ '')'') c0 fs, vs'')
             \<and> set vs'' = set vs' \<union> set fs))
   \<and> (match_name name \<and> ms \<noteq> []
        \<and> list_all (\<lambda>m. CHR ''.'' \<notin> set m \<and> CHR ''|'' \<notin> set m) ms \<longrightarrow>
      expr_code (join ''.'' (name # ms)) vs
        = Inr (''do_dots(c_'' @ name @ '', '' @ join '', '' (map repr ms) @ '')'',
               List.insert name vs))
   \<and> expr_code ''a.b|f'' [] = Inr (''c_f(do_dots(c_a, 'b'))'', [''f'', ''a''])
   \<and> expr_code ''base|f1|f2'' [] = Inr (''c_f2(c_f1(c_base))'', [''f2'', ''f1'', ''base''])"
proof (intro conjI impI)
  assume a: "CHR ''|'' \<notin> set base \<and> fs \<noteq> [] \<and> list_all match_name fs
      \<and> expr_code base vs = Inr (c0, vs')"
  then have "list_all (\<lambda>x. CHR ''|'' \<notin> set x) (base # fs)"
    by (auto simp: list_all_iff dest: match_name_no_sep)
  then have sp: "split_on CHR ''|'' (join ''|'' (base # fs)) = base # fs"
    by (rule split_on_join)
  from a have "CHR ''|'' \<in> set (join ''|'' (base # fs))" by (simp add: sep_in_join)
  with sp a have "expr_code (join ''|'' (base # fs)) vs
                 = Inr (foldl (\<lambda>c f. ''c_'' @ f @ ''('' @ c @ '')'') c0 fs, fold List.insert fs vs')"
    by (simp add: expr_code_piped expr_code_pipes_valid)
  then show "\<exists>vs''. expr_code (join ''|'' (base # fs)) vs
                 = Inr (foldl (\<lambda>c f. ''c_'' @ f @ ''('' @ c @ '')'') c0 fs, vs'')
             \<and> set vs'' = set vs' \<union> set fs"
    by (simp add: set_fold_insert)
next
  assume a: "match_name name \<and> ms \<noteq> []
        \<and> list_all (\<lambda>m. CHR ''.'' \<notin> set m \<and> CHR ''|'' \<notin> set m) ms"
  let ?e = "join ''.'' (name # ms)"
  from a have "list_all (\<lambda>x. CHR ''.'' \<notin> set x) (name # ms)"
    by (auto simp: list_all_iff dest: match_name_no_sep)
  then have sp: "split_on CHR ''.'' ?e = name # ms" by (rule split_on_join)
  from a have dot: "CHR ''.'' \<in> set ?e" by (simp add: sep_in_join)
  have nopipe: "CHR ''|'' \<notin> set ?e"
  proof
    assume "CHR ''|'' \<in> set ?e"
    moreover have "\<And>x xs. CHR ''|'' \<in> set (join ''.'' (x # xs)) \<Longrightarrow> \<exists>y\<in>set (x # xs). CHR ''|'' \<in> set y"
    proof -
      fix x :: string and xs
      show "CHR ''|'' \<in> set (join ''.'' (x # xs)) \<Longrightarrow> \<exists>y\<in>set (x # xs). CHR ''|'' \<in> set y"
        by (induction xs arbitrary: x) auto
    qed
    ultimately obtain y where "y \<in> set (name # ms)" "CHR ''|'' \<in> set y" by blast
    with a show False by (auto simp: list_all_iff dest: match_name_no_sep)
  qed
  from nopipe dot sp a show "expr_code ?e vs
        = Inr (''do_dots(c_'' @ name @ '', '' @ join '', '' (map repr ms) @ '')'',
               List.insert name vs)"
    by (simp add: expr_code_base)
next
  show "expr_code ''a.b|f'' [] = Inr (''c_f(do_dots(c_a, 'b'))'', [''f'', ''a''])"
    by (simp add: expr_code.simps variable_def str_defs Let_def)
next
  show "expr_code ''base|f1|f2'' [] = Inr (''c_f2(c_f1(c_base))'', [''f2'', ''f1'', ''base''])"
    by (simp add: expr_code.simps variable_def str_defs Let_def)
qed

theorem filters_wrap_the_dotted_base_witness:
  "CHR ''|'' \<notin> set ''u.name'' \<and> list_all match_name [''upper'', ''trim'']
   \<and> expr_code ''u.name'' [] = Inr (''do_dots(c_u, 'name')'', [''u''])
   \<and> (\<exists>vs''. expr_code ''u.name|upper|trim'' []
                = Inr (''c_trim(c_upper(do_dots(c_u, 'name')))'', vs'')
            \<and> set vs'' = {''upper'', ''trim'', ''u''})
   \<and> match_name ''u''
   \<and> expr_code ''u.name.first'' [] = Inr (''do_dots(c_u, 'name', 'first')'', [''u''])"
proof -
  note T = filters_wrap_the_dotted_base [of "''u.name''" "[''upper'', ''trim'']" "[]"
      "''do_dots(c_u, 'name')''" "[''u'']" "''u''" "[''name'', ''first'']"]
  have h1: "CHR ''|'' \<notin> set ''u.name'' \<and> [''upper'', ''trim''] \<noteq> []
      \<and> list_all match_name [''upper'', ''trim'']
      \<and> expr_code ''u.name'' [] = Inr (''do_dots(c_u, 'name')'', [''u''])"
    by (simp add: expr_code.simps variable_def str_defs Let_def)
  have h2: "match_name ''u'' \<and> [''name'', ''first''] \<noteq> []
      \<and> list_all (\<lambda>m. CHR ''.'' \<notin> set m \<and> CHR ''|'' \<notin> set m) [''name'', ''first'']"
    by (simp add: str_defs)
  have c1: "\<exists>vs''. expr_code ''u.name|upper|trim'' []
                = Inr (''c_trim(c_upper(do_dots(c_u, 'name')))'', vs'')
            \<and> set vs'' = {''upper'', ''trim'', ''u''}"
    using T [THEN conjunct1, THEN mp, OF h1] by simp
  have c2: "expr_code ''u.name.first'' [] = Inr (''do_dots(c_u, 'name', 'first')'', [''u''])"
    using T [THEN conjunct2, THEN conjunct1, THEN mp, OF h2] by (simp add: repr_def repr_char_def printable_def Let_def)
  from h1 h2 c1 c2 show ?thesis by blast
qed

section \<open>The resolver\<close>

text \<open>
  C9. \<open>_do_dots\<close> works through the names from left to right: resolving \<open>ns @ ms\<close>
  is resolving \<open>ns\<close> and then \<open>ms\<close> from the value reached, and an exception ends
  it. For one name: the attribute look-up is tried; when it raises AttributeError the
  subscript is tried; when that raises too, its exception is the result; the value found
  is called with no argument when it is callable, and the result of the call is the new
  value. An exception of the attribute look-up other than AttributeError is the result
  as it is.
\<close>

theorem do_dots_resolves_left_to_right:
  "do_dots H v (ns @ ms) = (case do_dots H v ns of Inl e \<Rightarrow> Inl e | Inr w \<Rightarrow> do_dots H w ms)
   \<and> (py_getattr H v n = Inr a \<longrightarrow>
        do_dots H v [n] = (if py_callable H a then py_call H a else Inr a))
   \<and> (py_getattr H v n = Inl AttributeError \<and> py_getitem H v n = Inr a \<longrightarrow>
        do_dots H v [n] = (if py_callable H a then py_call H a else Inr a))
   \<and> (py_getattr H v n = Inl AttributeError \<and> py_getitem H v n = Inl e \<longrightarrow>
        do_dots H v (n # ms) = Inl e)
   \<and> (py_getattr H v n = Inl e \<and> e \<noteq> AttributeError \<longrightarrow>
        do_dots H v (n # ms) = Inl e)"
proof (intro conjI impI)
  show "do_dots H v (ns @ ms) = (case do_dots H v ns of Inl e \<Rightarrow> Inl e | Inr w \<Rightarrow> do_dots H w ms)"
    by (rule do_dots_append)
next
  assume "py_getattr H v n = Inr a"
  then show "do_dots H v [n] = (if py_callable H a then py_call H a else Inr a)"
    by (simp split: sum.splits)
next
  assume "py_getattr H v n = Inl AttributeError \<and> py_getitem H v n = Inr a"
  then show "do_dots H v [n] = (if py_callable H a then py_call H a else Inr a)"
    by (simp split: sum.splits)
next
  assume "py_getattr H v n = Inl AttributeError \<and> py_getitem H v n = Inl e"
  then show "do_dots H v (n # ms) = Inl e" by simp
next
  assume "py_getattr H v n = Inl e \<and> e \<noteq> AttributeError"
  then show "do_dots H v (n # ms) = Inl e" by (cases e) simp_all
qed

theorem do_dots_resolves_left_to_right_witness:
  "do_dots demo_host ''obj'' ([''tag''] @ [''zip''])
     = (case do_dots demo_host ''obj'' [''tag''] of Inl e \<Rightarrow> Inl e
        | Inr w \<Rightarrow> do_dots demo_host w [''zip''])
   \<and> py_getattr demo_host ''obj'' ''tag'' = Inr ''method''
   \<and> py_callable demo_host ''method''
   \<and> do_dots demo_host ''obj'' [''tag''] = Inr ''X''
   \<and> py_getattr demo_host ''u'' ''name'' = Inl AttributeError
   \<and> py_getitem demo_host ''u'' ''name'' = Inr ''Ann''
   \<and> do_dots demo_host ''u'' [''name''] = Inr ''Ann''
   \<and> py_getitem demo_host ''u'' ''age'' = Inl KeyError
   \<and> do_dots demo_host ''u'' [''age'', ''x''] = Inl KeyError
   \<and> py_getattr demo_host ''obj'' ''boom'' = Inl (Other ''ValueError'')
   \<and> do_dots demo_host ''obj'' [''boom'', ''x''] = Inl (Other ''ValueError'')"
proof -
  have g1: "py_getattr demo_host ''obj'' ''tag'' = Inr ''method''"
    and g2: "py_getattr demo_host ''u'' ''name'' = Inl AttributeError
             \<and> py_getitem demo_host ''u'' ''name'' = Inr ''Ann''"
    and g3: "py_getattr demo_host ''u'' ''age'' = Inl AttributeError
             \<and> py_getitem demo_host ''u'' ''age'' = Inl KeyError"
    and g4: "py_getattr demo_host ''obj'' ''boom'' = Inl (Other ''ValueError'')
             \<and> Other ''ValueError'' \<noteq> AttributeError"
    and cl: "py_callable demo_host ''method''" "\<not> py_callable demo_host ''Ann''"
            "py_call demo_host ''method'' = Inr ''X''"
    by (simp_all add: demo_host_def)
  note T = do_dots_resolves_left_to_right
  have c0: "do_dots demo_host ''obj'' ([''tag''] @ [''zip''])
     = (case do_dots demo_host ''obj'' [''tag''] of Inl e \<Rightarrow> Inl e
        | Inr w \<Rightarrow> do_dots demo_host w [''zip''])"
    using T [of demo_host "''obj''" "[''tag'']" "[''zip'']", THEN conjunct1] .
  have c1: "do_dots demo_host ''obj'' [''tag''] = Inr ''X''"
    using T [of demo_host "''obj''" _ _ "''tag''" "''method''",
        THEN conjunct2, THEN conjunct1, THEN mp, OF g1] cl by simp
  have c2: "do_dots demo_host ''u'' [''name''] = Inr ''Ann''"
    using T [of demo_host "''u''" _ _ "''name''" "''Ann''",
        THEN conjunct2, THEN conjunct2, THEN conjunct1, THEN mp, OF g2] cl by simp
  have c3: "do_dots demo_host ''u'' [''age'', ''x''] = Inl KeyError"
    using T [of demo_host "''u''" _ "[''x'']" "''age''" _ KeyError,
        THEN conjunct2, THEN conjunct2, THEN conjunct2, THEN conjunct1, THEN mp, OF g3] .
  have c4: "do_dots demo_host ''obj'' [''boom'', ''x''] = Inl (Other ''ValueError'')"
    using T [of demo_host "''obj''" _ "[''x'']" "''boom''" _ "Other ''ValueError''",
        THEN conjunct2, THEN conjunct2, THEN conjunct2, THEN conjunct2, THEN mp, OF g4] .
  from c0 g1 cl(1) c1 g2 c2 g3 c3 g4 c4 show ?thesis by blast
qed

section \<open>Rendering leaves the contexts as they are\<close>

text \<open>
  C10. \<open>render\<close> changes no dictionary that exists when it is called: the base context
  of the template and the dictionary the caller passes hold what they held, also when
  they are one and the same dictionary. The base context is copied to a new dictionary,
  the caller's values are laid over the copy, and the renderer gets the copy. The
  template itself is a value that \<open>render\<close> only reads: its name sets, its renderer and
  the address of its base context cannot change.
\<close>

theorem render_leaves_contexts_unchanged:
  "context self < next_addr h \<and> (case ctx of None \<Rightarrow> True | Some a \<Rightarrow> a < next_addr h) \<longrightarrow>
     cells (snd (render H self ctx h)) (context self) = cells h (context self)
     \<and> (case ctx of None \<Rightarrow> True
         | Some a \<Rightarrow> cells (snd (render H self ctx h)) a = cells h a)
     \<and> (\<forall>b. b < next_addr h \<longrightarrow> cells (snd (render H self ctx h)) b = cells h b)
     \<and> fst (render H self ctx h)
         = renderer self
             (dict_at h (context self)
                ++ (case ctx of None \<Rightarrow> Map.empty | Some a \<Rightarrow> dict_at h a))
             (do_dots H)"
proof (intro impI)
  assume a: "context self < next_addr h \<and> (case ctx of None \<Rightarrow> True | Some a \<Rightarrow> a < next_addr h)"
  show "cells (snd (render H self ctx h)) (context self) = cells h (context self)
     \<and> (case ctx of None \<Rightarrow> True
         | Some a \<Rightarrow> cells (snd (render H self ctx h)) a = cells h a)
     \<and> (\<forall>b. b < next_addr h \<longrightarrow> cells (snd (render H self ctx h)) b = cells h b)
     \<and> fst (render H self ctx h)
         = renderer self
             (dict_at h (context self)
                ++ (case ctx of None \<Rightarrow> Map.empty | Some a \<Rightarrow> dict_at h a))
             (do_dots H)"
  proof (cases ctx)
    case None
    with a show ?thesis
      by (simp add: render_def dict_copy_def new_dict_def dict_at_def)
  next
    case (Some c)
    with a have c: "c < next_addr h" by simp
    show ?thesis
    proof (cases "dict_at h c = Map.empty")
      case True
      with a c Some show ?thesis
        by (simp add: render_def dict_copy_def new_dict_def dict_at_def)
    next
      case False
      with a c Some show ?thesis
        by (simp add: render_def dict_copy_def new_dict_def dict_at_def dict_update_def)
    qed
  qed
qed

theorem render_leaves_contexts_unchanged_witness:
  "context demo_template < next_addr demo_heap \<and> 1 < next_addr demo_heap
   \<and> cells (snd (render demo_host demo_template (Some 1) demo_heap)) 0 = cells demo_heap 0
   \<and> cells (snd (render demo_host demo_template (Some 1) demo_heap)) 1 = cells demo_heap 1
   \<and> fst (render demo_host demo_template (Some 1) demo_heap) = Inr ''call''
   \<and> fst (render demo_host demo_template None demo_heap) = Inr ''base''"
proof -
  have h1: "context demo_template < next_addr demo_heap
      \<and> (case Some 1 of None \<Rightarrow> True | Some a \<Rightarrow> a < next_addr demo_heap)"
    and h2: "context demo_template < next_addr demo_heap
      \<and> (case None of None \<Rightarrow> True | Some a \<Rightarrow> a < next_addr demo_heap)"
    by (simp_all add: demo_template_def demo_heap_def)
  have ctx0: "context demo_template = 0" by (simp add: demo_template_def)
  have d: "dict_at demo_heap 0 = [''x'' \<mapsto> ''base'']"
    "dict_at demo_heap (Suc 0) = [''x'' \<mapsto> ''call'', ''y'' \<mapsto> ''more'']"
    by (simp_all add: dict_at_def demo_heap_def)
  have r: "renderer demo_template
      = (\<lambda>ctx resolve. case ctx ''x'' of None \<Rightarrow> Inl KeyError | Some v \<Rightarrow> Inr v)"
    by (simp add: demo_template_def)
  note T1 = render_leaves_contexts_unchanged
      [of demo_template demo_heap "Some 1" demo_host, THEN mp, OF h1]
  note T2 = render_leaves_contexts_unchanged
      [of demo_template demo_heap None demo_host, THEN mp, OF h2]
  from T1 have c1: "cells (snd (render demo_host demo_template (Some 1) demo_heap)) 0 = cells demo_heap 0"
    by (simp add: ctx0)
  from T1 have c2: "cells (snd (render demo_host demo_template (Some 1) demo_heap)) 1 = cells demo_heap 1"
    by simp
  from T1 have c3: "fst (render demo_host demo_template (Some 1) demo_heap) = Inr ''call''"
    by (simp add: ctx0 d r)
  from T2 have c4: "fst (render demo_host demo_template None demo_heap) = Inr ''base''"
    by (simp add: ctx0 d r)
  from h1 c1 c2 c3 c4 show ?thesis by simp
qed

end
